theory Spec2Isabelle
  imports Main
begin

section \<open>Overview\<close>

text \<open>
  A shallow embedding of two scripts. \<open>verify_backfill_websites_from_ibiz.py\<close> links the
  records of \<open>companies.jsonl\<close> that have no website to the companies of a secondary
  database: it normalizes identity fields, builds four inverted indexes over the
  secondary companies, collects candidate matches with their evidence tags, classifies
  each record with \<open>decide_match\<close>, gathers the approved matches and, on request, writes
  the matched websites back. \<open>rewrite_company_exports.py\<close> replaces legacy brand names in
  exported files. Python exceptions are values of type \<open>error\<close>; dicts are association
  lists in insertion order; files are lists of lines.
\<close>


section \<open>Strings as Python sees them\<close>

text \<open>
  A Python \<open>str\<close> is modelled as a HOL \<open>string\<close>. The character classes below are
  those of Python on the ASCII range: \<open>str.isspace\<close> (used by \<open>str.strip\<close> and by the
  regular expression class \<open>\s\<close>), the decimal digits of \<open>\d\<close>, and the case mapping
  of \<open>str.lower\<close> and \<open>str.casefold\<close>. Characters outside ASCII are carried along
  unchanged: they are neither space nor digit and have no case.
\<close>

definition is_space :: "char \<Rightarrow> bool" where
  "is_space c = (c \<in> set [CHR 0x09, CHR 0x0A, CHR 0x0B, CHR 0x0C, CHR 0x0D,
                            CHR 0x1C, CHR 0x1D, CHR 0x1E, CHR 0x1F, CHR 0x20])"

definition is_digit :: "char \<Rightarrow> bool" where
  "is_digit c = (c \<in> set ''0123456789'')"

definition lower_char :: "char \<Rightarrow> char" where
  "lower_char c =
     (case map_of (zip ''ABCDEFGHIJKLMNOPQRSTUVWXYZ'' ''abcdefghijklmnopqrstuvwxyz'') c of
        Some d \<Rightarrow> d
      | None \<Rightarrow> c)"

definition lower :: "string \<Rightarrow> string" where
  "lower s = map lower_char s"

definition casefold :: "string \<Rightarrow> string" where
  "casefold s = map lower_char s"

definition lstrip :: "string \<Rightarrow> string" where
  "lstrip s = dropWhile is_space s"

definition rstrip :: "string \<Rightarrow> string" where
  "rstrip s = rev (dropWhile is_space (rev s))"

definition strip :: "string \<Rightarrow> string" where
  "strip s = rstrip (lstrip s)"

text \<open>\<open>value or ""\<close> on an optional string: \<open>None\<close> and the empty string give \<open>""\<close>.\<close>

definition or_empty :: "string option \<Rightarrow> string" where
  "or_empty v = (case v of None \<Rightarrow> [] | Some s \<Rightarrow> s)"

definition startswith :: "string \<Rightarrow> string \<Rightarrow> bool" where
  "startswith s p = (take (length p) s = p)"

text \<open>\<open>str.isdigit\<close>: at least one character, and every character a digit.\<close>

definition isdigit :: "string \<Rightarrow> bool" where
  "isdigit s = (s \<noteq> [] \<and> list_all is_digit s)"

section \<open>The normalizers\<close>

text \<open>
  \<open>re.sub(r"\s+", " ", s)\<close>: every maximal run of whitespace becomes one space.
\<close>

function sub_spaces :: "string \<Rightarrow> string" where
  "sub_spaces [] = []"
| "sub_spaces (c # cs) =
     (if is_space c then CHR '' '' # sub_spaces (dropWhile is_space cs)
      else c # sub_spaces cs)"
  by pat_completeness auto
termination
  by (relation "measure length") (auto simp: length_dropWhile_le less_Suc_eq_le)

text \<open>\<open>re.findall(r"\d+", s)\<close>: the maximal runs of digits, left to right.\<close>

function findall_digits :: "string \<Rightarrow> string list" where
  "findall_digits [] = []"
| "findall_digits (c # cs) =
     (if is_digit c then (c # takeWhile is_digit cs) # findall_digits (dropWhile is_digit cs)
      else findall_digits cs)"
  by pat_completeness auto
termination
  by (relation "measure length") (auto simp: length_dropWhile_le less_Suc_eq_le)

definition norm_space :: "string option \<Rightarrow> string" where
  "norm_space v = sub_spaces (strip (or_empty v))"

definition norm_text :: "string option \<Rightarrow> string" where
  "norm_text v = casefold (norm_space v)"

definition normalize_phone :: "string option \<Rightarrow> string" where
  "normalize_phone raw = concat (findall_digits (or_empty raw))"

definition normalize_email :: "string option \<Rightarrow> string" where
  "normalize_email raw = casefold (strip (or_empty raw))"

definition normalize_unp :: "string option \<Rightarrow> string" where
  "normalize_unp raw = concat (findall_digits (or_empty raw))"

text \<open>
  \<open>uniq_keep_order\<close>: the loop carries the output list and the set of values seen.
\<close>

fun uniq_loop :: "string option list \<Rightarrow> string list \<Rightarrow> string set \<Rightarrow> string list" where
  "uniq_loop [] out seen = out"
| "uniq_loop (v # vs) out seen =
     (let s = strip (or_empty v) in
      if s = [] then uniq_loop vs out seen
      else if s \<in> seen then uniq_loop vs out seen
      else uniq_loop vs (out @ [s]) (insert s seen))"

definition uniq_keep_order :: "string option list \<Rightarrow> string list" where
  "uniq_keep_order vs = uniq_loop vs [] {}"

text \<open>
  \<open>re.match(r"^https?://", s, flags=re.IGNORECASE)\<close>: a literal prefix, compared
  without regard to case.
\<close>

definition match_http_scheme :: "string \<Rightarrow> bool" where
  "match_http_scheme s = (startswith (lower s) ''http://'' \<or> startswith (lower s) ''https://'')"

fun websites_loop :: "string option list \<Rightarrow> string list \<Rightarrow> string list" where
  "websites_loop [] out = out"
| "websites_loop (raw # rs) out =
     (let s = strip (or_empty raw) in
      if s = [] then websites_loop rs out
      else if startswith (lower s) ''mailto:'' \<or> startswith (lower s) ''tel:''
        then websites_loop rs out
      else if \<not> match_http_scheme s then websites_loop rs (out @ [''https://'' @ s])
      else websites_loop rs (out @ [s]))"

definition normalize_websites :: "string option list \<Rightarrow> string list" where
  "normalize_websites vs = uniq_keep_order (map Some (websites_loop vs []))"

section \<open>Predicates used in the proofs about normalization\<close>



section \<open>Python values read from JSON\<close>

text \<open>
  The values \<open>json.loads\<close> returns: \<open>None\<close>, booleans, integers, strings, lists and
  dicts with string keys (a dict is an association list in insertion order). Numbers
  with a fraction or an exponent are not modelled.
\<close>

datatype json =
    JNull
  | JBool bool
  | JInt int
  | JStr string
  | JList "json list"
  | JDict "(string \<times> json) list"

datatype error = AttributeError | TypeError

text \<open>Python's truth value of an object, as \<open>or\<close>, \<open>not\<close> and \<open>if\<close> test it.\<close>

fun truthy :: "json \<Rightarrow> bool" where
  "truthy JNull = False"
| "truthy (JBool b) = b"
| "truthy (JInt i) = (i \<noteq> 0)"
| "truthy (JStr s) = (s \<noteq> [])"
| "truthy (JList xs) = (xs \<noteq> [])"
| "truthy (JDict kvs) = (kvs \<noteq> [])"

subsection \<open>\<open>str()\<close> and \<open>repr()\<close>\<close>

definition digit_char :: "nat \<Rightarrow> char" where
  "digit_char n = ''0123456789'' ! (n mod 10)"

function str_nat :: "nat \<Rightarrow> string" where
  "str_nat n = (if n < 10 then [digit_char n] else str_nat (n div 10) @ [digit_char n])"
  by pat_completeness auto
termination
  by (relation "measure id") auto

definition str_int :: "int \<Rightarrow> string" where
  "str_int i = (if i < 0 then CHR ''-'' # str_nat (nat (- i)) else str_nat (nat i))"

definition hex_char :: "nat \<Rightarrow> char" where
  "hex_char n = ''0123456789abcdef'' ! (n mod 16)"

text \<open>
  \<open>repr\<close> of a string: single quotes, unless the string holds a single quote and no
  double quote; the backslash, the chosen quote and the control characters are escaped.
\<close>

definition repr_char :: "char \<Rightarrow> char \<Rightarrow> string" where
  "repr_char q c =
     (if c = CHR 0x5C then [CHR 0x5C, CHR 0x5C]
      else if c = q then [CHR 0x5C, q]
      else if c = CHR 0x09 then [CHR 0x5C, CHR ''t'']
      else if c = CHR 0x0A then [CHR 0x5C, CHR ''n'']
      else if c = CHR 0x0D then [CHR 0x5C, CHR ''r'']
      else if (of_char c :: nat) < 32 \<or> c = CHR 0x7F
        then [CHR 0x5C, CHR ''x'', hex_char (of_char c div 16), hex_char (of_char c)]
      else [c])"

definition repr_str :: "string \<Rightarrow> string" where
  "repr_str s =
     (let q = (if CHR 0x27 \<in> set s \<and> CHR 0x22 \<notin> set s then CHR 0x22 else CHR 0x27)
      in q # concat (map (repr_char q) s) @ [q])"

definition join :: "string \<Rightarrow> string list \<Rightarrow> string" where
  "join sep xs = (case xs of [] \<Rightarrow> [] | y # ys \<Rightarrow> y @ concat (map (\<lambda>z. sep @ z) ys))"

fun py_repr :: "json \<Rightarrow> string" where
  "py_repr JNull = ''None''"
| "py_repr (JBool b) = (if b then ''True'' else ''False'')"
| "py_repr (JInt i) = str_int i"
| "py_repr (JStr s) = repr_str s"
| "py_repr (JList xs) = ''['' @ join '', '' (map py_repr xs) @ '']''"
| "py_repr (JDict kvs) =
     ''{'' @ join '', '' (map (\<lambda>kv. repr_str (fst kv) @ '': '' @ py_repr (snd kv)) kvs) @ ''}''"

definition py_str :: "json \<Rightarrow> string" where
  "py_str v = (case v of JStr s \<Rightarrow> s | _ \<Rightarrow> py_repr v)"

subsection \<open>Dictionaries\<close>

text \<open>\<open>d.get(k)\<close>: the value, or \<open>None\<close> for an absent key.\<close>

definition dict_get :: "(string \<times> json) list \<Rightarrow> string \<Rightarrow> json" where
  "dict_get d k = (case map_of d k of None \<Rightarrow> JNull | Some v \<Rightarrow> v)"

text \<open>\<open>d[k] = v\<close>: an existing key keeps its place, a new key goes last.\<close>

fun dict_set :: "('k \<times> 'v) list \<Rightarrow> 'k \<Rightarrow> 'v \<Rightarrow> ('k \<times> 'v) list" where
  "dict_set [] k v = [(k, v)]"
| "dict_set ((k', v') # d) k v = (if k' = k then (k, v) # d else (k', v') # dict_set d k v)"

text \<open>\<open>str(d.get(k) or "")\<close>.\<close>

definition get_str :: "(string \<times> json) list \<Rightarrow> string \<Rightarrow> string" where
  "get_str d k = (let v = dict_get d k in if truthy v then py_str v else [])"

text \<open>
  Iterating a value with \<open>for x in v\<close>: a list gives its items, a string its
  characters, a dict its keys; \<open>None\<close>, a boolean or an integer raises \<open>TypeError\<close>.
\<close>

fun py_iter :: "json \<Rightarrow> error + json list" where
  "py_iter (JList xs) = Inr xs"
| "py_iter (JStr s) = Inr (map (\<lambda>c. JStr [c]) s)"
| "py_iter (JDict kvs) = Inr (map (\<lambda>kv. JStr (fst kv)) kvs)"
| "py_iter JNull = Inl TypeError"
| "py_iter (JBool b) = Inl TypeError"
| "py_iter (JInt i) = Inl TypeError"

text \<open>\<open>for x in (d.get(k) or [])\<close>.\<close>

definition get_iter :: "(string \<times> json) list \<Rightarrow> string \<Rightarrow> error + json list" where
  "get_iter d k = (let v = dict_get d k in if truthy v then py_iter v else Inr [])"

section \<open>The match decision\<close>

definition IMPORTED_SOURCE_ID_PREFIX :: string where
  "IMPORTED_SOURCE_ID_PREFIX = ''biznesinfo-''"

definition STRONG_EVIDENCE :: "string set" where
  "STRONG_EVIDENCE = {''direct_source_id'', ''phone'', ''email'', ''unp''}"

definition source_prefix :: "string option \<Rightarrow> string" where
  "source_prefix source_id =
     (let sid = strip (or_empty source_id) in
      if startswith sid IMPORTED_SOURCE_ID_PREFIX then IMPORTED_SOURCE_ID_PREFIX
      else if isdigit sid then ''digits''
      else ''other'')"

text \<open>
  A candidate mapping \<open>dict[str, set[str]]\<close> is an association list in insertion order;
  a Python dict never holds a key twice, which is \<open>dict_keys_distinct\<close>.
\<close>

type_synonym candidates = "(string \<times> string set) list"

definition dict_keys_distinct :: "('k \<times> 'v) list \<Rightarrow> bool" where
  "dict_keys_distinct d = distinct (map fst d)"

record MatchDecision =
  source_id :: string
  d_name :: string
  d_address :: string
  d_source_prefix :: string
  evidence_by_candidate :: candidates
  match_type :: string
  auto_candidate :: "string option"

definition decide_match :: "string \<Rightarrow> string \<Rightarrow> string \<Rightarrow> candidates \<Rightarrow> bool \<Rightarrow> MatchDecision" where
  "decide_match sid nm addr cands allow_weak_name_address =
     (let prefix = source_prefix (Some sid) in
      case cands of
        [] \<Rightarrow>
          \<lparr>source_id = sid, d_name = nm, d_address = addr, d_source_prefix = prefix,
           evidence_by_candidate = [], match_type = ''no_match'', auto_candidate = None\<rparr>
      | (only_candidate, evidence) # rest \<Rightarrow>
          if length cands > 1 then
            \<lparr>source_id = sid, d_name = nm, d_address = addr, d_source_prefix = prefix,
             evidence_by_candidate = cands, match_type = ''ambiguous'', auto_candidate = None\<rparr>
          else if evidence \<inter> STRONG_EVIDENCE \<noteq> {} then
            \<lparr>source_id = sid, d_name = nm, d_address = addr, d_source_prefix = prefix,
             evidence_by_candidate = cands, match_type = ''auto'',
             auto_candidate = Some only_candidate\<rparr>
          else if allow_weak_name_address \<and> evidence = {''name_addr''} then
            \<lparr>source_id = sid, d_name = nm, d_address = addr, d_source_prefix = prefix,
             evidence_by_candidate = cands, match_type = ''auto_weak_name_addr'',
             auto_candidate = Some only_candidate\<rparr>
          else
            \<lparr>source_id = sid, d_name = nm, d_address = addr, d_source_prefix = prefix,
             evidence_by_candidate = cands, match_type = ''weak_unique'',
             auto_candidate = None\<rparr>)"

section \<open>The secondary dataset and its indexes\<close>

record IbizCompany =
  subdomain :: string
  name :: string
  address :: string
  unp :: string
  phones :: "string list"
  emails :: "string list"
  websites :: "string list"

text \<open>
  A row of the query of \<open>load_ibiz_companies\<close>. A scalar column is the Python value
  sqlite hands over (\<open>None\<close>, a string or an integer). A column of JSON text is
  represented by the value \<open>json.loads\<close> makes of it: \<open>None\<close> when the column is not
  text, is blank or does not parse.
\<close>

record ibiz_row =
  row_subdomain :: json
  row_name :: json
  row_address :: json
  row_unp :: json
  row_phones_json :: "json option"
  row_emails_json :: "json option"
  row_websites_json :: "json option"

text \<open>\<open>isinstance(x, (str, int, float))\<close>; a Python \<open>bool\<close> is an \<open>int\<close>.\<close>

fun is_str_int_float :: "json \<Rightarrow> bool" where
  "is_str_int_float (JStr s) = True"
| "is_str_int_float (JInt i) = True"
| "is_str_int_float (JBool b) = True"
| "is_str_int_float JNull = False"
| "is_str_int_float (JList xs) = False"
| "is_str_int_float (JDict kvs) = False"

definition parse_json_list :: "json option \<Rightarrow> string list" where
  "parse_json_list raw =
     (case raw of
        Some (JList xs) \<Rightarrow> map py_str (filter is_str_int_float xs)
      | _ \<Rightarrow> [])"

text \<open>\<open>str(v or "")\<close> on a column value.\<close>

definition str_or_empty :: "json \<Rightarrow> string" where
  "str_or_empty v = (if truthy v then py_str v else [])"

fun load_rows :: "ibiz_row list \<Rightarrow> (string \<times> IbizCompany) list \<Rightarrow> (string \<times> IbizCompany) list" where
  "load_rows [] out = out"
| "load_rows (row # rows) out =
     (let sub = strip (str_or_empty (row_subdomain row)) in
      if sub = [] then load_rows rows out
      else
        let sites = normalize_websites (map Some (parse_json_list (row_websites_json row))) in
        if sites = [] then load_rows rows out
        else
          let phs = uniq_keep_order
                      (map Some (filter (\<lambda>p. length p \<ge> 9)
                         (map (\<lambda>x. normalize_phone (Some x)) (parse_json_list (row_phones_json row)))));
              ems = uniq_keep_order
                      (map Some (filter (\<lambda>e. e \<noteq> [])
                         (map (\<lambda>x. normalize_email (Some x)) (parse_json_list (row_emails_json row)))));
              u = normalize_unp (Some (str_or_empty (row_unp row)))
          in load_rows rows
               (dict_set out sub
                  \<lparr>subdomain = sub,
                   name = norm_space (Some (str_or_empty (row_name row))),
                   address = norm_space (Some (str_or_empty (row_address row))),
                   unp = u, phones = phs, emails = ems, websites = sites\<rparr>))"

definition load_ibiz_companies :: "ibiz_row list \<Rightarrow> (string \<times> IbizCompany) list" where
  "load_ibiz_companies rows = load_rows rows []"

text \<open>
  An index \<open>dict[str, set[str]]\<close> built on a \<open>defaultdict(set)\<close>: an association list
  from key to the members of the set in the order they were added.
\<close>

type_synonym index = "(string \<times> string list) list"

definition index_get :: "index \<Rightarrow> string \<Rightarrow> string list" where
  "index_get idx k = (case map_of idx k of None \<Rightarrow> [] | Some subs \<Rightarrow> subs)"

definition index_add :: "index \<Rightarrow> string \<Rightarrow> string \<Rightarrow> index" where
  "index_add idx k sub =
     (let subs = index_get idx k in
      dict_set idx k (if sub \<in> set subs then subs else subs @ [sub]))"

fun index_add_all :: "index \<Rightarrow> string list \<Rightarrow> string \<Rightarrow> index" where
  "index_add_all idx [] sub = idx"
| "index_add_all idx (k # ks) sub = index_add_all (index_add idx k sub) ks sub"

record indexes =
  by_phone :: index
  by_email :: index
  by_unp :: index
  by_name_addr :: index

definition name_addr_key :: "string \<Rightarrow> string \<Rightarrow> string" where
  "name_addr_key nm addr = norm_text (Some nm) @ ''||'' @ norm_text (Some addr)"

fun index_companies :: "(string \<times> IbizCompany) list \<Rightarrow> indexes \<Rightarrow> indexes" where
  "index_companies [] ix = ix"
| "index_companies ((sub, company) # rest) ix =
     (let ph = index_add_all (by_phone ix) (phones company) sub;
          em = index_add_all (by_email ix) (emails company) sub;
          un = (if length (unp company) \<ge> 6 then index_add (by_unp ix) (unp company) sub
                else by_unp ix);
          key = name_addr_key (name company) (address company);
          na = (if key \<noteq> ''||'' then index_add (by_name_addr ix) key sub else by_name_addr ix)
      in index_companies rest
           \<lparr>by_phone = ph, by_email = em, by_unp = un, by_name_addr = na\<rparr>)"

definition build_ibiz_indexes :: "(string \<times> IbizCompany) list \<Rightarrow> indexes" where
  "build_ibiz_indexes companies =
     index_companies companies \<lparr>by_phone = [], by_email = [], by_unp = [], by_name_addr = []\<rparr>"

section \<open>Collecting candidates\<close>

text \<open>\<open>candidates[sub].add(tag)\<close> on a \<open>defaultdict(set)\<close>.\<close>

definition add_evidence :: "candidates \<Rightarrow> string \<Rightarrow> string \<Rightarrow> candidates" where
  "add_evidence cands sub tag =
     dict_set cands sub
       (case map_of cands sub of None \<Rightarrow> {tag} | Some ev \<Rightarrow> insert tag ev)"

fun add_evidence_all :: "candidates \<Rightarrow> string list \<Rightarrow> string \<Rightarrow> candidates" where
  "add_evidence_all cands [] tag = cands"
| "add_evidence_all cands (sub # subs) tag = add_evidence_all (add_evidence cands sub tag) subs tag"

fun collect_phones :: "index \<Rightarrow> json list \<Rightarrow> candidates \<Rightarrow> candidates" where
  "collect_phones idx [] cands = cands"
| "collect_phones idx (raw_phone # rest) cands =
     (let phone = normalize_phone (Some (py_str raw_phone)) in
      if length phone < 9 then collect_phones idx rest cands
      else collect_phones idx rest (add_evidence_all cands (index_get idx phone) ''phone''))"

fun collect_emails :: "index \<Rightarrow> json list \<Rightarrow> candidates \<Rightarrow> candidates" where
  "collect_emails idx [] cands = cands"
| "collect_emails idx (raw_email # rest) cands =
     (let email = normalize_email (Some (py_str raw_email)) in
      if email = [] then collect_emails idx rest cands
      else collect_emails idx rest (add_evidence_all cands (index_get idx email) ''email''))"

definition collect_candidates ::
  "(string \<times> json) list \<Rightarrow> (string \<times> IbizCompany) list \<Rightarrow> indexes \<Rightarrow> error + candidates" where
  "collect_candidates company ibiz_companies ix =
     (let sid = strip (get_str company ''source_id'');
          c0 = (if sid \<noteq> [] \<and> map_of ibiz_companies sid \<noteq> None
                then add_evidence [] sid ''direct_source_id'' else [])
      in case get_iter company ''phones'' of
           Inl e \<Rightarrow> Inl e
         | Inr raw_phones \<Rightarrow>
             let c1 = collect_phones (by_phone ix) raw_phones c0 in
             (case get_iter company ''emails'' of
                Inl e \<Rightarrow> Inl e
              | Inr raw_emails \<Rightarrow>
                  let c2 = collect_emails (by_email ix) raw_emails c1;
                      u = normalize_unp (Some (get_str company ''unp''));
                      c3 = (if length u \<ge> 6
                            then add_evidence_all c2 (index_get (by_unp ix) u) ''unp'' else c2);
                      key = name_addr_key (get_str company ''name'') (get_str company ''address'');
                      c4 = (if key \<noteq> ''||''
                            then add_evidence_all c3 (index_get (by_name_addr ix) key) ''name_addr''
                            else c3)
                  in Inr c4))"

section \<open>The batch pass, the approved map and the backfill writer\<close>

text \<open>
  \<open>normalize_websites\<close> called on a value taken from JSON. The loop iterates the
  value, and \<open>(raw or "").strip()\<close> needs each item to be a string unless it is falsy:
  any other item raises \<open>AttributeError\<close>.
\<close>

fun str_items :: "json list \<Rightarrow> error + string option list" where
  "str_items [] = Inr []"
| "str_items (raw # rest) =
     (if \<not> truthy raw then
        (case str_items rest of Inl e \<Rightarrow> Inl e | Inr vs \<Rightarrow> Inr (None # vs))
      else
        (case raw of
           JStr s \<Rightarrow> (case str_items rest of Inl e \<Rightarrow> Inl e | Inr vs \<Rightarrow> Inr (Some s # vs))
         | _ \<Rightarrow> Inl AttributeError))"

definition normalize_websites_value :: "json \<Rightarrow> error + string list" where
  "normalize_websites_value v =
     (case py_iter v of
        Inl e \<Rightarrow> Inl e
      | Inr items \<Rightarrow>
          (case str_items items of
             Inl e \<Rightarrow> Inl e
           | Inr vs \<Rightarrow> Inr (normalize_websites vs)))"

text \<open>\<open>normalize_websites(obj.get("websites") or [])\<close>.\<close>

definition current_websites :: "(string \<times> json) list \<Rightarrow> error + string list" where
  "current_websites d =
     (let v = dict_get d ''websites'' in
      normalize_websites_value (if truthy v then v else JList []))"

text \<open>
  A JSONL file is the list of its lines, each represented by what the reading loop makes
  of it: \<open>None\<close> for a line that is blank or that \<open>json.loads\<close> rejects, and the parsed
  value otherwise. A written line is \<open>json.dumps\<close> of a value, which parses back to that
  value.
\<close>

type_synonym jsonl = "json option list"

text \<open>
  The reading loop of \<open>main\<close>, which builds the list of decisions. Its counters for the
  report are left out. A parsed line that is not a dict raises \<open>AttributeError\<close> at
  \<open>obj.get\<close>.
\<close>

fun decide_lines ::
  "(string \<times> IbizCompany) list \<Rightarrow> indexes \<Rightarrow> bool \<Rightarrow> int \<Rightarrow> jsonl \<Rightarrow> MatchDecision list
     \<Rightarrow> error + MatchDecision list" where
  "decide_lines ibiz_companies ix allow_weak max_companies [] decisions = Inr decisions"
| "decide_lines ibiz_companies ix allow_weak max_companies (None # rest) decisions =
     decide_lines ibiz_companies ix allow_weak max_companies rest decisions"
| "decide_lines ibiz_companies ix allow_weak max_companies (Some obj # rest) decisions =
     (case obj of
        JDict d \<Rightarrow>
          (let sid = strip (get_str d ''source_id'') in
           case current_websites d of
             Inl e \<Rightarrow> Inl e
           | Inr sites \<Rightarrow>
               if sites \<noteq> [] then
                 decide_lines ibiz_companies ix allow_weak max_companies rest decisions
               else if max_companies \<noteq> 0 \<and> int (length decisions) \<ge> max_companies then
                 decide_lines ibiz_companies ix allow_weak max_companies rest decisions
               else
                 (case collect_candidates d ibiz_companies ix of
                    Inl e \<Rightarrow> Inl e
                  | Inr cands \<Rightarrow>
                      decide_lines ibiz_companies ix allow_weak max_companies rest
                        (decisions @
                           [decide_match sid
                              (norm_space (Some (get_str d ''name'')))
                              (norm_space (Some (get_str d ''address'')))
                              cands allow_weak])))
      | _ \<Rightarrow> Inl AttributeError)"

text \<open>
  The approved map of \<open>main\<close>: \<open>if decision.auto_candidate:\<close> stores the candidate under
  the decision's \<open>source_id\<close>. The test is Python's truth value, so \<open>None\<close> and the empty
  string both store nothing. The tallies of the same loop are left out.
\<close>

fun auto_matches_loop :: "MatchDecision list \<Rightarrow> (string \<rightharpoonup> string) \<Rightarrow> (string \<rightharpoonup> string)" where
  "auto_matches_loop [] auto_matches = auto_matches"
| "auto_matches_loop (decision # rest) auto_matches =
     auto_matches_loop rest
       (case auto_candidate decision of
          None \<Rightarrow> auto_matches
        | Some c \<Rightarrow> if c \<noteq> [] then auto_matches(source_id decision \<mapsto> c) else auto_matches)"

definition auto_matches_of :: "MatchDecision list \<Rightarrow> (string \<rightharpoonup> string)" where
  "auto_matches_of decisions = auto_matches_loop decisions Map.empty"

text \<open>
  One line of \<open>apply_backfill\<close>: the row to write, and whether it counts as updated.
\<close>

definition backfill_row ::
  "(string \<rightharpoonup> string) \<Rightarrow> (string \<times> IbizCompany) list \<Rightarrow> json \<Rightarrow> error + (json \<times> bool)" where
  "backfill_row auto_matches ibiz_companies obj =
     (case obj of
        JDict d \<Rightarrow>
          (let sid = strip (get_str d ''source_id'') in
           case current_websites d of
             Inl e \<Rightarrow> Inl e
           | Inr sites \<Rightarrow>
               (case auto_matches sid of
                  None \<Rightarrow> Inr (obj, False)
                | Some candidate_subdomain \<Rightarrow>
                    if sites \<noteq> [] then Inr (obj, False)
                    else
                      (case map_of ibiz_companies candidate_subdomain of
                         None \<Rightarrow> Inr (obj, False)
                       | Some candidate \<Rightarrow>
                           if websites candidate \<noteq> [] then
                             Inr (JDict (dict_set d ''websites''
                                           (JList (map JStr (websites candidate)))), True)
                           else Inr (obj, False))))
      | _ \<Rightarrow> Inl AttributeError)"

fun backfill_lines ::
  "(string \<rightharpoonup> string) \<Rightarrow> (string \<times> IbizCompany) list \<Rightarrow> jsonl \<Rightarrow> nat \<Rightarrow> jsonl
     \<Rightarrow> error + (nat \<times> jsonl)" where
  "backfill_lines auto_matches ibiz_companies [] updated dst = Inr (updated, dst)"
| "backfill_lines auto_matches ibiz_companies (None # rest) updated dst =
     backfill_lines auto_matches ibiz_companies rest updated dst"
| "backfill_lines auto_matches ibiz_companies (Some obj # rest) updated dst =
     (case backfill_row auto_matches ibiz_companies obj of
        Inl e \<Rightarrow> Inl e
      | Inr (obj', changed) \<Rightarrow>
          backfill_lines auto_matches ibiz_companies rest
            (if changed then updated + 1 else updated) (dst @ [Some obj']))"

text \<open>
  \<open>apply_backfill\<close> on the contents of \<open>companies.jsonl\<close>: the result, and the contents
  of the file afterwards. The temporary file replaces the original only when the loop
  completes; an exception leaves the original as it was. The backup copy is another
  file and is left out.
\<close>

definition apply_backfill ::
  "(string \<rightharpoonup> string) \<Rightarrow> (string \<times> IbizCompany) list \<Rightarrow> jsonl \<Rightarrow> (error + nat) \<times> jsonl" where
  "apply_backfill auto_matches ibiz_companies companies_jsonl =
     (case backfill_lines auto_matches ibiz_companies companies_jsonl 0 [] of
        Inl e \<Rightarrow> (Inl e, companies_jsonl)
      | Inr (updated, dst) \<Rightarrow> (Inr updated, dst))"

text \<open>The parsed rows of a file, in order: what the loops of the script iterate.\<close>

fun parsed_rows :: "jsonl \<Rightarrow> json list" where
  "parsed_rows [] = []"
| "parsed_rows (None # rest) = parsed_rows rest"
| "parsed_rows (Some obj # rest) = obj # parsed_rows rest"


section \<open>Rewriting company exports\<close>

definition build_legacy_token :: string where
  "build_legacy_token = ''i'' @ ''biz''"

definition build_legacy_tokens :: "string list" where
  "build_legacy_tokens = [build_legacy_token, ''belarus'' @ ''info'']"

record RewriteConfig =
  site_base_url :: string
  company_path_prefix :: string
  catalog_path_prefix :: string

text \<open>\<open>token in text\<close>: the token occurs as a substring.\<close>

fun contains :: "string \<Rightarrow> string \<Rightarrow> bool" where
  "contains [] token = (token = [])"
| "contains (c # cs) token = (startswith (c # cs) token \<or> contains cs token)"

definition contains_any_legacy_token :: "string option \<Rightarrow> string list \<Rightarrow> bool" where
  "contains_any_legacy_token text legacy_tokens =
     (let low = lower (or_empty text) in list_ex (\<lambda>token. contains low token) legacy_tokens)"

text \<open>
  A pattern \<open>re.compile(re.escape(token), flags=re.IGNORECASE)\<close> is represented by its
  token. \<open>pattern.sub(repl, s)\<close> scans \<open>s\<close> from the left: where the token matches
  without regard to case, the replacement is written and the scan resumes after the
  match; elsewhere one character is copied. The empty token matches at every position.
\<close>

function sub_ci :: "string \<Rightarrow> string \<Rightarrow> string \<Rightarrow> string" where
  "sub_ci token repl [] = (if token = [] then repl else [])"
| "sub_ci token repl (c # cs) =
     (if token = [] then repl @ c # sub_ci token repl cs
      else if lower (take (length token) (c # cs)) = lower token
        then repl @ sub_ci token repl (drop (length token) (c # cs))
      else c # sub_ci token repl cs)"
  by pat_completeness auto
termination
  by (relation "measure (\<lambda>(token, repl, s). length s)") auto

definition replace_legacy_tokens :: "string option \<Rightarrow> string list \<Rightarrow> string" where
  "replace_legacy_tokens text legacy_token_res =
     foldl (\<lambda>out pattern. sub_ci pattern ''biznesinfo'' out) (or_empty text) legacy_token_res"

text \<open>
  \<open>urlparse\<close> belongs to the standard library and is a parameter here: it returns the
  scheme and the path of a URL, or \<open>None\<close> when it raises.
\<close>

type_synonym urlparse = "string \<Rightarrow> (string \<times> string) option"

text \<open>\<open>s.split(sep, 1)[0]\<close> for a separator of one character.\<close>

definition before_char :: "char \<Rightarrow> string \<Rightarrow> string" where
  "before_char sep s = takeWhile (\<lambda>c. c \<noteq> sep) s"

definition normalize_logo_url :: "urlparse \<Rightarrow> string option \<Rightarrow> string list \<Rightarrow> string list \<Rightarrow> string" where
  "normalize_logo_url parse raw legacy_tokens legacy_token_res =
     (let v = strip (or_empty raw) in
      if v = [] then []
      else if \<not> contains_any_legacy_token (Some v) legacy_tokens then v
      else
        let v1 = (case parse v of
                    Some (scheme, path) \<Rightarrow>
                      if (scheme = ''http'' \<or> scheme = ''https'') \<and> path \<noteq> [] then path else v
                  | None \<Rightarrow> v);
            v2 = strip (before_char CHR ''#'' (before_char CHR ''?'' v1))
        in if contains_any_legacy_token (Some v2) legacy_tokens
           then replace_legacy_tokens (Some v2) legacy_token_res
           else v2)"

fun deep_rewrite :: "json \<Rightarrow> string list \<Rightarrow> string list \<Rightarrow> json" where
  "deep_rewrite (JStr s) legacy_tokens legacy_token_res =
     (if contains_any_legacy_token (Some s) legacy_tokens
      then JStr (replace_legacy_tokens (Some s) legacy_token_res)
      else JStr s)"
| "deep_rewrite (JList xs) legacy_tokens legacy_token_res =
     JList (map (\<lambda>item. deep_rewrite item legacy_tokens legacy_token_res) xs)"
| "deep_rewrite (JDict kvs) legacy_tokens legacy_token_res =
     JDict (map (\<lambda>kv. (fst kv, deep_rewrite (snd kv) legacy_tokens legacy_token_res)) kvs)"
| "deep_rewrite JNull legacy_tokens legacy_token_res = JNull"
| "deep_rewrite (JBool b) legacy_tokens legacy_token_res = JBool b"
| "deep_rewrite (JInt i) legacy_tokens legacy_token_res = JInt i"

text \<open>
  \<open>(d.get(k) or "")\<close> where a string method follows: a falsy value gives \<open>""\<close>, a string
  itself, and any other value raises \<open>AttributeError\<close> at the method.
\<close>

definition get_text :: "(string \<times> json) list \<Rightarrow> string \<Rightarrow> error + string" where
  "get_text d k =
     (let v = dict_get d k in
      if \<not> truthy v then Inr []
      else (case v of JStr s \<Rightarrow> Inr s | _ \<Rightarrow> Inl AttributeError))"

text \<open>
  The loop over \<open>categories\<close> and over \<open>rubrics\<close>: an item that is a dict with a
  non-empty \<open>slug\<close> gets its \<open>url\<close> set; other items stay.
\<close>

fun set_catalog_urls :: "string \<Rightarrow> json list \<Rightarrow> error + json list" where
  "set_catalog_urls prefix [] = Inr []"
| "set_catalog_urls prefix (item # rest) =
     (case item of
        JDict cat \<Rightarrow>
          (case get_text cat ''slug'' of
             Inl e \<Rightarrow> Inl e
           | Inr raw_slug \<Rightarrow>
               (let slug = strip raw_slug;
                    cat' = (if slug \<noteq> [] then dict_set cat ''url'' (JStr (prefix @ ''/'' @ slug))
                            else cat)
                in case set_catalog_urls prefix rest of
                     Inl e \<Rightarrow> Inl e
                   | Inr rest' \<Rightarrow> Inr (JDict cat' # rest')))
      | _ \<Rightarrow>
          (case set_catalog_urls prefix rest of
             Inl e \<Rightarrow> Inl e
           | Inr rest' \<Rightarrow> Inr (item # rest')))"

definition set_catalog_field :: "string \<Rightarrow> string \<Rightarrow> (string \<times> json) list \<Rightarrow> error + (string \<times> json) list" where
  "set_catalog_field prefix field company =
     (case dict_get company field of
        JList items \<Rightarrow>
          (case set_catalog_urls prefix items of
             Inl e \<Rightarrow> Inl e
           | Inr items' \<Rightarrow> Inr (dict_set company field (JList items')))
      | _ \<Rightarrow> Inr company)"

fun is_str :: "json \<Rightarrow> bool" where
  "is_str (JStr s) = True"
| "is_str JNull = False"
| "is_str (JBool b) = False"
| "is_str (JInt i) = False"
| "is_str (JList xs) = False"
| "is_str (JDict kvs) = False"

definition rewrite_company ::
  "urlparse \<Rightarrow> (string \<times> json) list \<Rightarrow> RewriteConfig \<Rightarrow> string list \<Rightarrow> string list \<Rightarrow> error + json" where
  "rewrite_company parse company cfg legacy_tokens legacy_token_res =
     (case get_text company ''source'' of
        Inl e \<Rightarrow> Inl e
      | Inr raw_source \<Rightarrow>
        let c1 = (if lower (strip raw_source) \<in> set legacy_tokens
                  then dict_set company ''source'' (JStr ''biznesinfo'') else company)
        in case get_text c1 ''source_id'' of
          Inl e \<Rightarrow> Inl e
        | Inr raw_source_id \<Rightarrow>
          let sid0 = strip raw_source_id;
              rewritten = (sid0 \<noteq> [] \<and> contains_any_legacy_token (Some sid0) legacy_tokens);
              sid = (if rewritten then replace_legacy_tokens (Some sid0) legacy_token_res else sid0);
              c2 = (if rewritten then dict_set c1 ''source_id'' (JStr sid) else c1)
          in case get_text c2 ''source'' of
            Inl e \<Rightarrow> Inl e
          | Inr source_now \<Rightarrow>
            (case (if strip source_now = ''biznesinfo'' \<and> sid \<noteq> []
                   then Inr (dict_set c2 ''source_url'' (JStr (company_path_prefix cfg @ ''/'' @ sid)))
                   else (case get_text c2 ''source_url'' of
                           Inl e \<Rightarrow> Inl e
                         | Inr source_url \<Rightarrow>
                             if contains_any_legacy_token (Some (strip source_url)) legacy_tokens
                             then Inr (dict_set c2 ''source_url'' (JStr []))
                             else Inr c2)) of
               Inl e \<Rightarrow> Inl e
             | Inr c3 \<Rightarrow>
               let c4 = dict_set c3 ''logo_url''
                          (JStr (normalize_logo_url parse (Some (get_str c3 ''logo_url''))
                                   legacy_tokens legacy_token_res));
                   c5 = (case dict_get c4 ''websites'' of
                           JList ws \<Rightarrow>
                             dict_set c4 ''websites''
                               (JList (filter (\<lambda>w. is_str w \<and>
                                          \<not> contains_any_legacy_token (Some (py_str w)) legacy_tokens) ws))
                         | _ \<Rightarrow> c4)
               in case set_catalog_field (catalog_path_prefix cfg) ''categories'' c5 of
                 Inl e \<Rightarrow> Inl e
               | Inr c6 \<Rightarrow>
                 (case set_catalog_field (catalog_path_prefix cfg) ''rubrics'' c6 of
                    Inl e \<Rightarrow> Inl e
                  | Inr c7 \<Rightarrow> Inr (deep_rewrite (JDict c7) legacy_tokens legacy_token_res))))"

subsection \<open>\<open>json.dumps\<close> with \<open>ensure_ascii=False\<close> and separators \<open>(",", ":")\<close>\<close>

definition json_escape_char :: "char \<Rightarrow> string" where
  "json_escape_char c =
     (if c = CHR 0x22 then [CHR 0x5C, CHR 0x22]
      else if c = CHR 0x5C then [CHR 0x5C, CHR 0x5C]
      else if c = CHR 0x0A then [CHR 0x5C, CHR ''n'']
      else if c = CHR 0x0D then [CHR 0x5C, CHR ''r'']
      else if c = CHR 0x09 then [CHR 0x5C, CHR ''t'']
      else if c = CHR 0x08 then [CHR 0x5C, CHR ''b'']
      else if c = CHR 0x0C then [CHR 0x5C, CHR ''f'']
      else if (of_char c :: nat) < 32
        then [CHR 0x5C, CHR ''u'', CHR ''0'', CHR ''0'', hex_char (of_char c div 16), hex_char (of_char c)]
      else [c])"

definition json_string :: "string \<Rightarrow> string" where
  "json_string s = CHR 0x22 # concat (map json_escape_char s) @ [CHR 0x22]"

fun json_dumps :: "json \<Rightarrow> string" where
  "json_dumps JNull = ''null''"
| "json_dumps (JBool b) = (if b then ''true'' else ''false'')"
| "json_dumps (JInt i) = str_int i"
| "json_dumps (JStr s) = json_string s"
| "json_dumps (JList xs) = ''['' @ join '','' (map json_dumps xs) @ '']''"
| "json_dumps (JDict kvs) =
     ''{'' @ join '','' (map (\<lambda>kv. json_string (fst kv) @ '':'' @ json_dumps (snd kv)) kvs) @ ''}''"

text \<open>
  \<open>rewrite_jsonl_file\<close>: the lines written to the output file, without their newline.
\<close>

fun rewrite_lines ::
  "urlparse \<Rightarrow> RewriteConfig \<Rightarrow> string list \<Rightarrow> string list \<Rightarrow> jsonl \<Rightarrow> string list
     \<Rightarrow> error + string list" where
  "rewrite_lines parse cfg legacy_tokens legacy_token_res [] fout = Inr fout"
| "rewrite_lines parse cfg legacy_tokens legacy_token_res (None # rest) fout =
     rewrite_lines parse cfg legacy_tokens legacy_token_res rest fout"
| "rewrite_lines parse cfg legacy_tokens legacy_token_res (Some obj # rest) fout =
     (case (case obj of
              JDict company \<Rightarrow> rewrite_company parse company cfg legacy_tokens legacy_token_res
            | _ \<Rightarrow> Inr obj) of
        Inl e \<Rightarrow> Inl e
      | Inr obj' \<Rightarrow>
          (let obj_line = json_dumps obj';
               guarded = (if contains_any_legacy_token (Some obj_line) legacy_tokens
                          then replace_legacy_tokens (Some obj_line) legacy_token_res
                          else obj_line)
           in rewrite_lines parse cfg legacy_tokens legacy_token_res rest (fout @ [guarded])))"

definition rewrite_jsonl_file ::
  "urlparse \<Rightarrow> RewriteConfig \<Rightarrow> string list \<Rightarrow> string list \<Rightarrow> jsonl \<Rightarrow> error + string list" where
  "rewrite_jsonl_file parse cfg legacy_tokens legacy_token_res src =
     rewrite_lines parse cfg legacy_tokens legacy_token_res src []"

section \<open>Properties of the normalizers\<close>

lemma takeWhile_filter_dropWhile: "takeWhile P xs @ filter P (dropWhile P xs) = filter P xs"
  by (induction xs) auto

lemma concat_findall_digits: "concat (findall_digits s) = filter is_digit s"
  by (induction s rule: findall_digits.induct) (auto simp: takeWhile_filter_dropWhile)



























section \<open>Properties of the match decision\<close>

lemma name_addr_not_strong: "{''name_addr''} \<inter> STRONG_EVIDENCE = {}"
  by (simp add: STRONG_EVIDENCE_def)

lemma dict_len_card: "dict_keys_distinct d \<Longrightarrow> card (fst ` set d) = length d"
  unfolding dict_keys_distinct_def
  by (metis distinct_card length_map set_map)

text \<open>
  Claim C1. \<open>decide_match\<close> follows the classification table in its order: no candidate
  gives \<open>no_match\<close>; more than one distinct candidate identifier gives \<open>ambiguous\<close>; a sole
  candidate whose evidence meets the trusted set gives \<open>auto\<close> with that candidate; a
  sole candidate whose evidence is exactly the name and address tag, with the weak flag
  on, gives \<open>auto_weak_name_addr\<close> with that candidate; every other sole candidate gives
  \<open>weak_unique\<close> with no candidate. The tags of the trusted set are spelled
  \<open>direct_source_id\<close>, \<open>phone\<close>, \<open>email\<close>, \<open>unp\<close> in the code, and the name and address
  tag \<open>name_addr\<close>.
\<close>

theorem decide_match_table:
  assumes "dict_keys_distinct cands"
  shows "(card (fst ` set cands) = 0 \<longrightarrow>
            match_type (decide_match sid nm addr cands weak) = ''no_match'' \<and>
            auto_candidate (decide_match sid nm addr cands weak) = None)
       \<and> (card (fst ` set cands) > 1 \<longrightarrow>
            match_type (decide_match sid nm addr cands weak) = ''ambiguous'' \<and>
            auto_candidate (decide_match sid nm addr cands weak) = None)
       \<and> (\<forall>c ev. cands = [(c, ev)] \<longrightarrow>
            (if ev \<inter> {''direct_source_id'', ''phone'', ''email'', ''unp''} \<noteq> {} then
               match_type (decide_match sid nm addr cands weak) = ''auto'' \<and>
               auto_candidate (decide_match sid nm addr cands weak) = Some c
             else if ev = {''name_addr''} \<and> weak then
               match_type (decide_match sid nm addr cands weak) = ''auto_weak_name_addr'' \<and>
               auto_candidate (decide_match sid nm addr cands weak) = Some c
             else
               match_type (decide_match sid nm addr cands weak) = ''weak_unique'' \<and>
               auto_candidate (decide_match sid nm addr cands weak) = None))
       \<and> (card (fst ` set cands) = 1 \<longrightarrow> (\<exists>c ev. cands = [(c, ev)]))
       \<and> match_type (decide_match sid nm addr cands weak)
           \<in> {''no_match'', ''ambiguous'', ''auto'', ''auto_weak_name_addr'', ''weak_unique''}"
proof -
  have len: "card (fst ` set cands) = length cands"
    using assms by (rule dict_len_card)
  have none: "length cands = 0 \<longrightarrow>
      match_type (decide_match sid nm addr cands weak) = ''no_match'' \<and>
      auto_candidate (decide_match sid nm addr cands weak) = None"
    by (simp add: decide_match_def)
  have many: "length cands > 1 \<longrightarrow>
      match_type (decide_match sid nm addr cands weak) = ''ambiguous'' \<and>
      auto_candidate (decide_match sid nm addr cands weak) = None"
    by (cases cands) (auto simp: decide_match_def Let_def)
  have one: "\<forall>c ev. cands = [(c, ev)] \<longrightarrow>
      (if ev \<inter> {''direct_source_id'', ''phone'', ''email'', ''unp''} \<noteq> {} then
         match_type (decide_match sid nm addr cands weak) = ''auto'' \<and>
         auto_candidate (decide_match sid nm addr cands weak) = Some c
       else if ev = {''name_addr''} \<and> weak then
         match_type (decide_match sid nm addr cands weak) = ''auto_weak_name_addr'' \<and>
         auto_candidate (decide_match sid nm addr cands weak) = Some c
       else
         match_type (decide_match sid nm addr cands weak) = ''weak_unique'' \<and>
         auto_candidate (decide_match sid nm addr cands weak) = None)"
    by (auto simp: decide_match_def Let_def STRONG_EVIDENCE_def)
  have sole: "length cands = 1 \<longrightarrow> (\<exists>c ev. cands = [(c, ev)])"
    by (cases cands) auto
  have five: "match_type (decide_match sid nm addr cands weak)
      \<in> {''no_match'', ''ambiguous'', ''auto'', ''auto_weak_name_addr'', ''weak_unique''}"
    by (simp add: decide_match_def Let_def split: list.splits)
  show ?thesis
    using len none many one sole five by presburger
qed

theorem decide_match_table_witness:
  "dict_keys_distinct [(''A1'', {''phone''})]
   \<and> match_type (decide_match ''17'' ''n'' ''a'' [(''A1'', {''phone''})] False) = ''auto''
   \<and> auto_candidate (decide_match ''17'' ''n'' ''a'' [(''A1'', {''phone''})] False) = Some ''A1''"
proof -
  have d: "dict_keys_distinct [(''A1'', {''phone''})]"
    by (simp add: dict_keys_distinct_def)
  show ?thesis
    using d decide_match_table [OF d, of "''17''" "''n''" "''a''" False] by simp
qed

text \<open>
  Claim C2. A decision carries an \<open>auto_candidate\<close> only if the candidate mapping holds
  exactly one identifier and that candidate's evidence meets the trust policy: it
  intersects the trusted set, or it is exactly the name and address tag with the weak
  flag on. A mapping with more than one distinct identifier always gives no
  \<open>auto_candidate\<close>, whatever the evidence of its candidates.
\<close>

theorem auto_candidate_only_sole_trusted:
  assumes "dict_keys_distinct cands"
  shows "(auto_candidate (decide_match sid nm addr cands weak) \<noteq> None \<longrightarrow>
            card (fst ` set cands) = 1 \<and>
            (\<exists>c ev. cands = [(c, ev)] \<and>
               auto_candidate (decide_match sid nm addr cands weak) = Some c \<and>
               (ev \<inter> {''direct_source_id'', ''phone'', ''email'', ''unp''} \<noteq> {}
                \<or> (ev = {''name_addr''} \<and> weak))))
       \<and> (card (fst ` set cands) > 1 \<longrightarrow>
            auto_candidate (decide_match sid nm addr cands weak) = None)"
proof -
  have len: "card (fst ` set cands) = length cands"
    using assms by (rule dict_len_card)
  have many: "length cands > 1 \<longrightarrow>
      auto_candidate (decide_match sid nm addr cands weak) = None"
    by (cases cands) (auto simp: decide_match_def Let_def)
  have only: "auto_candidate (decide_match sid nm addr cands weak) \<noteq> None \<longrightarrow>
      length cands = 1 \<and>
      (\<exists>c ev. cands = [(c, ev)] \<and>
         auto_candidate (decide_match sid nm addr cands weak) = Some c \<and>
         (ev \<inter> {''direct_source_id'', ''phone'', ''email'', ''unp''} \<noteq> {}
          \<or> (ev = {''name_addr''} \<and> weak)))"
  proof (cases cands)
    case Nil
    then show ?thesis by (simp add: decide_match_def)
  next
    case (Cons p rest)
    obtain c ev where p: "p = (c, ev)" by (cases p)
    show ?thesis
    proof (cases rest)
      case Nil
      with Cons p show ?thesis
        by (simp add: decide_match_def Let_def STRONG_EVIDENCE_def)
    next
      case (Cons q rest')
      with \<open>cands = p # rest\<close> p show ?thesis
        by (simp add: decide_match_def Let_def)
    qed
  qed
  show ?thesis
    using len many only by simp
qed

theorem auto_candidate_only_sole_trusted_witness:
  "dict_keys_distinct [(''A1'', {''phone''}), (''B2'', {''unp'', ''email''})]
   \<and> card (fst ` set [(''A1'', {''phone''}), (''B2'', {''unp'', ''email''})]) > 1
   \<and> auto_candidate
        (decide_match ''17'' ''n'' ''a'' [(''A1'', {''phone''}), (''B2'', {''unp'', ''email''})] True)
      = None"
proof -
  have d: "dict_keys_distinct [(''A1'', {''phone''}), (''B2'', {''unp'', ''email''})]"
    by (simp add: dict_keys_distinct_def)
  have c: "card (fst ` set [(''A1'', {''phone''}), (''B2'', {''unp'', ''email''})]) > 1"
    by simp
  show ?thesis
    using d c auto_candidate_only_sole_trusted [OF d, of "''17''" "''n''" "''a''" True]
    by blast
qed

section \<open>Properties of the indexes\<close>

lemma dict_set_entries:
  "(k', v') \<in> set (dict_set d k v) \<Longrightarrow> (k', v') = (k, v) \<or> (k', v') \<in> set d"
  by (induction d) (auto split: if_splits)

lemma dict_set_keys: "fst ` set (dict_set d k v) = insert k (fst ` set d)"
  by (induction d) (auto split: if_splits simp: rev_image_eqI)

lemma dict_set_distinct: "distinct (map fst d) \<Longrightarrow> distinct (map fst (dict_set d k v))"
proof (induction d)
  case Nil
  then show ?case by simp
next
  case (Cons p d)
  obtain k' v' where p: "p = (k', v')" by (cases p)
  from Cons show ?case
    by (auto simp: p dict_set_keys)
qed

lemma list_all_dict_set:
  "list_all P d \<Longrightarrow> P (k, v) \<Longrightarrow> list_all P (dict_set d k v)"
  by (induction d) auto

lemma normalize_unp_digits: "list_all is_digit (normalize_unp raw)"
  by (simp add: normalize_unp_def concat_findall_digits list_all_iff)

lemma load_rows_unp_digits:
  "list_all (\<lambda>entry. list_all is_digit (unp (snd entry))) out \<Longrightarrow>
     list_all (\<lambda>entry. list_all is_digit (unp (snd entry))) (load_rows rows out)"
proof (induction rows arbitrary: out)
  case Nil
  then show ?case by simp
next
  case (Cons row rows)
  show ?case
    using Cons.prems
    by (auto simp: Let_def normalize_unp_digits intro!: Cons.IH list_all_dict_set)
qed

lemma loaded_unp_digits:
  "list_all (\<lambda>entry. list_all is_digit (unp (snd entry))) (load_ibiz_companies rows)"
  unfolding load_ibiz_companies_def by (rule load_rows_unp_digits) simp

lemma load_rows_distinct:
  "dict_keys_distinct out \<Longrightarrow> dict_keys_distinct (load_rows rows out)"
proof (induction rows arbitrary: out)
  case Nil
  then show ?case by simp
next
  case (Cons row rows)
  show ?case
    using Cons.prems
    by (auto simp: Let_def dict_keys_distinct_def intro!: Cons.IH [unfolded dict_keys_distinct_def]
        dict_set_distinct)
qed

lemma loaded_keys_distinct: "dict_keys_distinct (load_ibiz_companies rows)"
  unfolding load_ibiz_companies_def by (rule load_rows_distinct) (simp add: dict_keys_distinct_def)

lemma index_get_entry:
  "s \<in> set (index_get idx k) \<Longrightarrow> \<exists>subs. (k, subs) \<in> set idx \<and> s \<in> set subs"
  by (cases "map_of idx k") (auto simp: index_get_def dest: map_of_SomeD)

lemma index_add_members:
  assumes "(k', subs') \<in> set (index_add idx k sub)" "s \<in> set subs'"
  shows "(k' = k \<and> s = sub) \<or> (\<exists>subs. (k', subs) \<in> set idx \<and> s \<in> set subs)"
proof -
  define new where "new = (if sub \<in> set (index_get idx k) then index_get idx k else index_get idx k @ [sub])"
  from assms(1) have "(k', subs') = (k, new) \<or> (k', subs') \<in> set idx"
    unfolding index_add_def Let_def new_def by (rule dict_set_entries)
  then show ?thesis
  proof
    assume eq: "(k', subs') = (k, new)"
    with assms(2) have "s = sub \<or> s \<in> set (index_get idx k)"
      by (auto simp: new_def split: if_splits)
    with eq index_get_entry [of s idx k] show ?thesis by auto
  next
    assume "(k', subs') \<in> set idx"
    with assms(2) show ?thesis by blast
  qed
qed

lemma index_companies_unp:
  "(k, subs) \<in> set (by_unp (index_companies cs ix)) \<Longrightarrow> s \<in> set subs \<Longrightarrow>
     (\<exists>subs0. (k, subs0) \<in> set (by_unp ix) \<and> s \<in> set subs0)
     \<or> (\<exists>c. (s, c) \<in> set cs \<and> 6 \<le> length (unp c) \<and> k = unp c)"
proof (induction cs ix arbitrary: subs rule: index_companies.induct)
  case (1 ix)
  then show ?case by auto
next
  case (2 sub company rest ix)
  define ix' where "ix' = \<lparr>by_phone = index_add_all (by_phone ix) (phones company) sub,
      by_email = index_add_all (by_email ix) (emails company) sub,
      by_unp = (if length (unp company) \<ge> 6 then index_add (by_unp ix) (unp company) sub else by_unp ix),
      by_name_addr = (if name_addr_key (name company) (address company) \<noteq> ''||''
         then index_add (by_name_addr ix) (name_addr_key (name company) (address company)) sub
         else by_name_addr ix)\<rparr>"
  have step: "index_companies ((sub, company) # rest) ix = index_companies rest ix'"
    by (simp add: ix'_def Let_def)
  from "2.prems" have mem: "(k, subs) \<in> set (by_unp (index_companies rest ix'))"
    by (simp only: step)
  have "(\<exists>subs0. (k, subs0) \<in> set (by_unp ix') \<and> s \<in> set subs0)
     \<or> (\<exists>c. (s, c) \<in> set rest \<and> 6 \<le> length (unp c) \<and> k = unp c)"
    using "2.IH" [OF refl refl refl refl refl, folded ix'_def] mem "2.prems"(2)
    by blast
  then show ?case
  proof
    assume "\<exists>subs0. (k, subs0) \<in> set (by_unp ix') \<and> s \<in> set subs0"
    then obtain subs0 where s0: "(k, subs0) \<in> set (by_unp ix')" "s \<in> set subs0" by blast
    show ?thesis
    proof (cases "6 \<le> length (unp company)")
      case True
      with s0 have "(k, subs0) \<in> set (index_add (by_unp ix) (unp company) sub)"
        by (simp add: ix'_def)
      from index_add_members [OF this s0(2)] True show ?thesis by auto
    next
      case False
      with s0 show ?thesis by (auto simp: ix'_def)
    qed
  next
    assume "\<exists>c. (s, c) \<in> set rest \<and> 6 \<le> length (unp c) \<and> k = unp c"
    then show ?thesis by auto
  qed
qed


lemma dict_entry_unique:
  "dict_keys_distinct d \<Longrightarrow> (k, v) \<in> set d \<Longrightarrow> (k, v') \<in> set d \<Longrightarrow> v = v'"
  unfolding dict_keys_distinct_def by (rule eq_key_imp_eq_value)

text \<open>
  Claim C3. After \<open>build_ibiz_indexes\<close>, a record whose normalized tax id has fewer
  than 6 digits appears under no key of the tax id index; equivalently, every identifier
  found in that index belongs to a record whose normalized tax id has at least 6 digits,
  and is filed under it. The normalized tax id of a record is its \<open>unp\<close> field: the
  loader stores \<open>normalize_unp\<close> of the raw column there, a string of digits
  (\<open>loaded_unp_digits\<close>), so its length is its number of digits. The keys of the
  table are distinct, as those of a Python dict are (\<open>loaded_keys_distinct\<close>).
\<close>

theorem short_unp_never_indexed:
  assumes "dict_keys_distinct companies"
    and "(sub, company) \<in> set companies"
    and "length (unp company) < 6"
  shows "(\<forall>k. sub \<notin> set (index_get (by_unp (build_ibiz_indexes companies)) k))
       \<and> (\<forall>k subs. (k, subs) \<in> set (by_unp (build_ibiz_indexes companies)) \<longrightarrow> sub \<notin> set subs)
       \<and> (\<forall>k subs s. (k, subs) \<in> set (by_unp (build_ibiz_indexes companies)) \<longrightarrow> s \<in> set subs
             \<longrightarrow> (\<exists>c. (s, c) \<in> set companies \<and> 6 \<le> length (unp c) \<and> k = unp c))"
proof -
  have origin: "\<exists>c. (s, c) \<in> set companies \<and> 6 \<le> length (unp c) \<and> k = unp c"
    if "(k, subs) \<in> set (by_unp (build_ibiz_indexes companies))" "s \<in> set subs" for k subs s
    using index_companies_unp [OF that [unfolded build_ibiz_indexes_def]] by simp
  have entries: "sub \<notin> set subs"
    if "(k, subs) \<in> set (by_unp (build_ibiz_indexes companies))" for k subs
  proof
    assume "sub \<in> set subs"
    from origin [OF that this] obtain c where c: "(sub, c) \<in> set companies" "6 \<le> length (unp c)"
      by blast
    from dict_entry_unique [OF assms(1) assms(2) c(1)] c(2) assms(3) show False by simp
  qed
  have lookups: "sub \<notin> set (index_get (by_unp (build_ibiz_indexes companies)) k)" for k
    using index_get_entry entries by blast
  show ?thesis
    using lookups entries origin by blast
qed

theorem short_unp_never_indexed_witness:
  "dict_keys_distinct
     [(''A1'', \<lparr>subdomain = ''A1'', name = ''a'', address = ''b'', unp = ''12345'',
                phones = [], emails = [], websites = [''https://a.by'']\<rparr>),
      (''B2'', \<lparr>subdomain = ''B2'', name = ''c'', address = ''d'', unp = ''123456'',
                phones = [], emails = [], websites = [''https://b.by'']\<rparr>)]
   \<and> by_unp (build_ibiz_indexes
     [(''A1'', \<lparr>subdomain = ''A1'', name = ''a'', address = ''b'', unp = ''12345'',
                phones = [], emails = [], websites = [''https://a.by'']\<rparr>),
      (''B2'', \<lparr>subdomain = ''B2'', name = ''c'', address = ''d'', unp = ''123456'',
                phones = [], emails = [], websites = [''https://b.by'']\<rparr>)])
     = [(''123456'', [''B2''])]
   \<and> ''A1'' \<notin> set (index_get (by_unp (build_ibiz_indexes
     [(''A1'', \<lparr>subdomain = ''A1'', name = ''a'', address = ''b'', unp = ''12345'',
                phones = [], emails = [], websites = [''https://a.by'']\<rparr>),
      (''B2'', \<lparr>subdomain = ''B2'', name = ''c'', address = ''d'', unp = ''123456'',
                phones = [], emails = [], websites = [''https://b.by'']\<rparr>)])) ''12345'')"
proof -
  let ?a = "\<lparr>subdomain = ''A1'', name = ''a'', address = ''b'', unp = ''12345'',
                phones = [], emails = [], websites = [''https://a.by'']\<rparr>"
  let ?b = "\<lparr>subdomain = ''B2'', name = ''c'', address = ''d'', unp = ''123456'',
                phones = [], emails = [], websites = [''https://b.by'']\<rparr>"
  have d: "dict_keys_distinct [(''A1'', ?a), (''B2'', ?b)]"
    by (simp add: dict_keys_distinct_def)
  have m: "(''A1'', ?a) \<in> set [(''A1'', ?a), (''B2'', ?b)]" by simp
  have l: "length (unp ?a) < 6" by simp
  have e: "by_unp (build_ibiz_indexes [(''A1'', ?a), (''B2'', ?b)]) = [(''123456'', [''B2''])]"
    by code_simp
  show ?thesis
    using d e short_unp_never_indexed [OF d m l] by blast
qed

section \<open>Properties of the approved map\<close>





section \<open>Properties of the backfill writer\<close>




lemma dict_set_frame:
  "filter (\<lambda>kv. fst kv \<noteq> k) (dict_set d k v) = filter (\<lambda>kv. fst kv \<noteq> k) d"
  by (induction d) auto


lemma str_items_strings:
  "str_items (map JStr ws) = Inr (map (\<lambda>s. if s = [] then None else Some s) ws)"
  by (induction ws) auto



lemma current_websites_total:
  assumes "dict_get d ''websites'' = JNull \<or> (\<exists>ss. dict_get d ''websites'' = JList (map JStr ss))"
  shows "\<exists>sites. current_websites d = Inr sites"
  using assms
  by (auto simp: current_websites_def normalize_websites_value_def str_items_strings)

lemma backfill_row_cases:
  assumes "backfill_row am ic obj = Inr (obj', ch)"
  shows "\<exists>d. obj = JDict d \<and>
           ((\<not> ch \<and> obj' = obj)
            \<or> (ch \<and> (\<exists>cs c. am (strip (get_str d ''source_id'')) = Some cs
                        \<and> current_websites d = Inr []
                        \<and> map_of ic cs = Some c \<and> websites c \<noteq> []
                        \<and> obj' = JDict (dict_set d ''websites'' (JList (map JStr (websites c)))))))"
  using assms
  by (cases obj)
     (auto simp: backfill_row_def Let_def split: sum.splits option.splits if_splits)



lemma backfill_lines_result:
  "backfill_lines am ic jl u dst = Inr (n, out) \<Longrightarrow>
     \<exists>res. list_all2 (\<lambda>obj r. backfill_row am ic obj = Inr r) (parsed_rows jl) res
        \<and> out = dst @ map (\<lambda>r. Some (fst r)) res
        \<and> n = u + length (filter snd res)"
proof (induction am ic jl u dst rule: backfill_lines.induct)
  case (1 am ic u dst)
  then show ?case by simp
next
  case (2 am ic rest u dst)
  then show ?case by simp
next
  case (3 am ic obj rest u dst)
  from "3.prems" obtain obj' ch where row: "backfill_row am ic obj = Inr (obj', ch)"
    by (auto split: sum.splits)
  with "3.prems" have "backfill_lines am ic rest (if ch then u + 1 else u) (dst @ [Some obj']) = Inr (n, out)"
    by simp
  from "3.IH" [OF row refl this] obtain res
    where res: "list_all2 (\<lambda>obj r. backfill_row am ic obj = Inr r) (parsed_rows rest) res"
      "out = (dst @ [Some obj']) @ map (\<lambda>r. Some (fst r)) res"
      "n = (if ch then u + 1 else u) + length (filter snd res)"
    by blast
  have "list_all2 (\<lambda>obj r. backfill_row am ic obj = Inr r) (parsed_rows (Some obj # rest)) ((obj', ch) # res)"
    using row res(1) by simp
  moreover have "out = dst @ map (\<lambda>r. Some (fst r)) ((obj', ch) # res)"
    using res(2) by simp
  moreover have "n = u + length (filter snd ((obj', ch) # res))"
    using res(3) by simp
  ultimately show ?case by blast
qed

lemma backfill_lines_total:
  "list_all (\<lambda>obj. \<exists>r. backfill_row am ic obj = Inr r) (parsed_rows jl) \<Longrightarrow>
     \<exists>n out. backfill_lines am ic jl u dst = Inr (n, out)"
proof (induction am ic jl u dst rule: backfill_lines.induct)
  case (1 am ic u dst)
  then show ?case by simp
next
  case (2 am ic rest u dst)
  then show ?case by simp
next
  case (3 am ic obj rest u dst)
  from "3.prems" obtain obj' ch where row: "backfill_row am ic obj = Inr (obj', ch)"
    by auto
  from "3.prems" have "list_all (\<lambda>obj. \<exists>r. backfill_row am ic obj = Inr r) (parsed_rows rest)"
    by simp
  from "3.IH" [OF row refl this] row show ?case by simp
qed



lemma backfill_row_when:
  assumes "am (strip (get_str d ''source_id'')) = Some cs" "current_websites d = Inr []"
    "map_of ic cs = Some c" "websites c \<noteq> []"
  shows "backfill_row am ic (JDict d)
         = Inr (JDict (dict_set d ''websites'' (JList (map JStr (websites c)))), True)"
  using assms by (simp add: backfill_row_def)

lemma backfill_row_total:
  "current_websites d = Inr sites \<Longrightarrow> \<exists>r. backfill_row am ic (JDict d) = Inr r"
  by (auto simp: backfill_row_def split: option.splits)

lemma apply_backfill_result:
  assumes "apply_backfill am ic jl = (Inr n, out)"
  shows "\<exists>res. list_all2 (\<lambda>obj r. backfill_row am ic obj = Inr r) (parsed_rows jl) res
        \<and> out = map (\<lambda>r. Some (fst r)) res \<and> n = length (filter snd res)"
proof -
  from assms have "backfill_lines am ic jl 0 [] = Inr (n, out)"
    by (auto simp: apply_backfill_def split: sum.splits)
  from backfill_lines_result [OF this] show ?thesis by simp
qed

text \<open>
  Claim C9. The backfill writer touches nothing but \<open>websites\<close>. When \<open>apply_backfill\<close>
  completes, it has written one row for each parsed row of the input, in order. A
  written row is the input row itself, or the input row with its \<open>websites\<close> field set to
  the website list of the matched secondary record; the latter happens exactly when the
  row's \<open>source_id\<close> is a key of the approved map, the row's normalized website list is
  empty, and the mapped record exists with a non-empty website list. Every field other
  than \<open>websites\<close> is then as in the input row. The writer completes whenever every
  parsed row is a dict whose \<open>websites\<close> can be normalized, as it can when the field is
  absent, \<open>null\<close> or a list of strings (\<open>current_websites_total\<close>); otherwise it
  raises and the file stays as it was.
\<close>

theorem backfill_frame:
  "(\<forall>n out. apply_backfill am ic jl = (Inr n, out) \<longrightarrow>
      list_all2
        (\<lambda>obj line. \<exists>d. obj = JDict d \<and>
           (line = Some obj
            \<or> (\<exists>cs c. am (strip (get_str d ''source_id'')) = Some cs
                  \<and> current_websites d = Inr []
                  \<and> map_of ic cs = Some c \<and> websites c \<noteq> []
                  \<and> (\<exists>d'. line = Some (JDict d')
                        \<and> d' = dict_set d ''websites'' (JList (map JStr (websites c)))
                        \<and> filter (\<lambda>kv. fst kv \<noteq> ''websites'') d'
                            = filter (\<lambda>kv. fst kv \<noteq> ''websites'') d)))
           \<and> (\<forall>cs c. am (strip (get_str d ''source_id'')) = Some cs
                  \<and> current_websites d = Inr []
                  \<and> map_of ic cs = Some c \<and> websites c \<noteq> []
                \<longrightarrow> line = Some (JDict (dict_set d ''websites'' (JList (map JStr (websites c)))))))
        (parsed_rows jl) out)
   \<and> (list_all (\<lambda>obj. \<exists>d sites. obj = JDict d \<and> current_websites d = Inr sites) (parsed_rows jl)
        \<longrightarrow> (\<exists>n out. apply_backfill am ic jl = (Inr n, out)))"
proof (intro conjI allI impI)
  fix n out
  assume run: "apply_backfill am ic jl = (Inr n, out)"
  from apply_backfill_result [OF run] obtain res
    where res: "list_all2 (\<lambda>obj r. backfill_row am ic obj = Inr r) (parsed_rows jl) res"
      and out: "out = map (\<lambda>r. Some (fst r)) res"
    by blast
  have row: "\<exists>d. obj = JDict d \<and>
           (Some (fst r) = Some obj
            \<or> (\<exists>cs c. am (strip (get_str d ''source_id'')) = Some cs
                  \<and> current_websites d = Inr []
                  \<and> map_of ic cs = Some c \<and> websites c \<noteq> []
                  \<and> (\<exists>d'. Some (fst r) = Some (JDict d')
                        \<and> d' = dict_set d ''websites'' (JList (map JStr (websites c)))
                        \<and> filter (\<lambda>kv. fst kv \<noteq> ''websites'') d'
                            = filter (\<lambda>kv. fst kv \<noteq> ''websites'') d)))
           \<and> (\<forall>cs c. am (strip (get_str d ''source_id'')) = Some cs
                  \<and> current_websites d = Inr []
                  \<and> map_of ic cs = Some c \<and> websites c \<noteq> []
                \<longrightarrow> Some (fst r) = Some (JDict (dict_set d ''websites'' (JList (map JStr (websites c))))))"
    if "backfill_row am ic obj = Inr r" for obj r
  proof -
    obtain obj' ch where r: "r = (obj', ch)" by (cases r)
    from backfill_row_cases [OF that [unfolded r]] obtain d where d: "obj = JDict d"
      and alt: "(\<not> ch \<and> obj' = obj)
        \<or> (ch \<and> (\<exists>cs c. am (strip (get_str d ''source_id'')) = Some cs
                  \<and> current_websites d = Inr []
                  \<and> map_of ic cs = Some c \<and> websites c \<noteq> []
                  \<and> obj' = JDict (dict_set d ''websites'' (JList (map JStr (websites c))))))"
      by blast
    have conv: "obj' = JDict (dict_set d ''websites'' (JList (map JStr (websites c))))"
      if "am (strip (get_str d ''source_id'')) = Some cs" "current_websites d = Inr []"
        "map_of ic cs = Some c" "websites c \<noteq> []" for cs c
      using backfill_row_when [of am d cs ic c] that \<open>backfill_row am ic obj = Inr r\<close>
      by (simp add: d r)
    from alt conv show ?thesis
      by (auto simp: d r dict_set_frame)
  qed
  show "list_all2
        (\<lambda>obj line. \<exists>d. obj = JDict d \<and>
           (line = Some obj
            \<or> (\<exists>cs c. am (strip (get_str d ''source_id'')) = Some cs
                  \<and> current_websites d = Inr []
                  \<and> map_of ic cs = Some c \<and> websites c \<noteq> []
                  \<and> (\<exists>d'. line = Some (JDict d')
                        \<and> d' = dict_set d ''websites'' (JList (map JStr (websites c)))
                        \<and> filter (\<lambda>kv. fst kv \<noteq> ''websites'') d'
                            = filter (\<lambda>kv. fst kv \<noteq> ''websites'') d)))
           \<and> (\<forall>cs c. am (strip (get_str d ''source_id'')) = Some cs
                  \<and> current_websites d = Inr []
                  \<and> map_of ic cs = Some c \<and> websites c \<noteq> []
                \<longrightarrow> line = Some (JDict (dict_set d ''websites'' (JList (map JStr (websites c)))))))
        (parsed_rows jl) out"
    unfolding out list_all2_map2
    by (rule list_all2_mono [OF res]) (rule row)
next
  assume "list_all (\<lambda>obj. \<exists>d sites. obj = JDict d \<and> current_websites d = Inr sites) (parsed_rows jl)"
  then have "list_all (\<lambda>obj. \<exists>r. backfill_row am ic obj = Inr r) (parsed_rows jl)"
    by (rule list.pred_mono_strong) (use backfill_row_total in fastforce)
  from backfill_lines_total [OF this, of 0 "[]"]
  show "\<exists>n out. apply_backfill am ic jl = (Inr n, out)"
    by (auto simp: apply_backfill_def)
qed


theorem backfill_frame_witness:
  "apply_backfill (Map.empty(''17'' \<mapsto> ''A1''))
     [(''A1'', \<lparr>subdomain = ''A1'', name = ''a'', address = ''b'', unp = [],
                phones = [], emails = [], websites = [''https://example.by'']\<rparr>)]
     [Some (JDict [(''source_id'', JInt 17), (''name'', JStr ''N'')]),
      None,
      Some (JDict [(''source_id'', JStr ''z''), (''websites'', JList [JStr ''x.by''])])]
   = (Inr 1,
      [Some (JDict [(''source_id'', JInt 17), (''name'', JStr ''N''),
                    (''websites'', JList [JStr ''https://example.by''])]),
       Some (JDict [(''source_id'', JStr ''z''), (''websites'', JList [JStr ''x.by''])])])
   \<and> list_all2
        (\<lambda>obj line. \<exists>d. obj = JDict d \<and>
           (line = Some obj
            \<or> (\<exists>d'. line = Some (JDict d')
                  \<and> filter (\<lambda>kv. fst kv \<noteq> ''websites'') d'
                      = filter (\<lambda>kv. fst kv \<noteq> ''websites'') d)))
        (parsed_rows
           [Some (JDict [(''source_id'', JInt 17), (''name'', JStr ''N'')]),
            None,
            Some (JDict [(''source_id'', JStr ''z''), (''websites'', JList [JStr ''x.by''])])])
        [Some (JDict [(''source_id'', JInt 17), (''name'', JStr ''N''),
                      (''websites'', JList [JStr ''https://example.by''])]),
         Some (JDict [(''source_id'', JStr ''z''), (''websites'', JList [JStr ''x.by''])])]"
proof -
  let ?am = "Map.empty(''17'' \<mapsto> ''A1'')"
  let ?ic = "[(''A1'', \<lparr>subdomain = ''A1'', name = ''a'', address = ''b'', unp = [],
                phones = [], emails = [], websites = [''https://example.by'']\<rparr>)]"
  let ?jl = "[Some (JDict [(''source_id'', JInt 17), (''name'', JStr ''N'')]),
      None,
      Some (JDict [(''source_id'', JStr ''z''), (''websites'', JList [JStr ''x.by''])])]"
  let ?out = "[Some (JDict [(''source_id'', JInt 17), (''name'', JStr ''N''),
                    (''websites'', JList [JStr ''https://example.by''])]),
       Some (JDict [(''source_id'', JStr ''z''), (''websites'', JList [JStr ''x.by''])])]"
  have run: "apply_backfill ?am ?ic ?jl = (Inr 1, ?out)"
    by code_simp
  from backfill_frame [of ?am ?ic ?jl] run
  have "list_all2
        (\<lambda>obj line. \<exists>d. obj = JDict d \<and>
           (line = Some obj
            \<or> (\<exists>cs c. ?am (strip (get_str d ''source_id'')) = Some cs
                  \<and> current_websites d = Inr []
                  \<and> map_of ?ic cs = Some c \<and> websites c \<noteq> []
                  \<and> (\<exists>d'. line = Some (JDict d')
                        \<and> d' = dict_set d ''websites'' (JList (map JStr (websites c)))
                        \<and> filter (\<lambda>kv. fst kv \<noteq> ''websites'') d'
                            = filter (\<lambda>kv. fst kv \<noteq> ''websites'') d)))
           \<and> (\<forall>cs c. ?am (strip (get_str d ''source_id'')) = Some cs
                  \<and> current_websites d = Inr []
                  \<and> map_of ?ic cs = Some c \<and> websites c \<noteq> []
                \<longrightarrow> line = Some (JDict (dict_set d ''websites'' (JList (map JStr (websites c)))))))
        (parsed_rows ?jl) ?out"
    by blast
  then have "list_all2
        (\<lambda>obj line. \<exists>d. obj = JDict d \<and>
           (line = Some obj
            \<or> (\<exists>d'. line = Some (JDict d')
                  \<and> filter (\<lambda>kv. fst kv \<noteq> ''websites'') d'
                      = filter (\<lambda>kv. fst kv \<noteq> ''websites'') d)))
        (parsed_rows ?jl) ?out"
    by (rule list_all2_mono) blast
  with run show ?thesis by blast
qed






section \<open>The end-to-end scenario\<close>

text \<open>
  Claim C7. The scenario of the specification, with every field it does not mention
  absent. The secondary dataset has one row, identifier \<open>A1\<close>, phones
  \<open>["+375 29 1234567"]\<close> and websites \<open>["example.by"]\<close>; the query record has phones
  \<open>["375291234567"]\<close> and an empty website list. The loader stores the websites
  \<open>["https://example.by"]\<close>; the collector returns exactly \<open>{"A1": {"phone"}}\<close>;
  \<open>decide_match\<close> answers \<open>auto\<close> with candidate \<open>A1\<close> whatever the weak flag; the batch
  pass approves \<open>A1\<close> for the record, and the writer gives it the websites
  \<open>["https://example.by"]\<close>.
\<close>

theorem scenario_phone_match:
  "(let rows = [\<lparr>row_subdomain = JStr ''A1'', row_name = JNull, row_address = JNull,
                  row_unp = JNull,
                  row_phones_json = Some (JList [JStr ''+375 29 1234567'']),
                  row_emails_json = None,
                  row_websites_json = Some (JList [JStr ''example.by''])\<rparr>];
        query = [(''phones'', JList [JStr ''375291234567'']), (''websites'', JList [])];
        ibiz_companies = load_ibiz_companies rows;
        ix = build_ibiz_indexes ibiz_companies
    in map (\<lambda>entry. (fst entry, phones (snd entry), websites (snd entry))) ibiz_companies
         = [(''A1'', [''375291234567''], [''https://example.by''])]
     \<and> collect_candidates query ibiz_companies ix = Inr [(''A1'', {''phone''})]
     \<and> (\<forall>weak sid nm addr.
           match_type (decide_match sid nm addr [(''A1'', {''phone''})] weak) = ''auto''
           \<and> auto_candidate (decide_match sid nm addr [(''A1'', {''phone''})] weak) = Some ''A1'')
     \<and> (\<forall>weak. \<exists>decisions.
           decide_lines ibiz_companies ix weak 0 [Some (JDict query)] [] = Inr decisions
           \<and> map match_type decisions = [''auto'']
           \<and> map auto_candidate decisions = [Some ''A1'']
           \<and> auto_matches_of decisions (strip (get_str query ''source_id'')) = Some ''A1''
           \<and> apply_backfill (auto_matches_of decisions) ibiz_companies [Some (JDict query)]
               = (Inr 1,
                  [Some (JDict [(''phones'', JList [JStr ''375291234567'']),
                                (''websites'', JList [JStr ''https://example.by''])])])))"
proof -
  define rows where "rows = [\<lparr>row_subdomain = JStr ''A1'', row_name = JNull, row_address = JNull,
                  row_unp = JNull,
                  row_phones_json = Some (JList [JStr ''+375 29 1234567'']),
                  row_emails_json = None,
                  row_websites_json = Some (JList [JStr ''example.by''])\<rparr>]"
  define query where "query = [(''phones'', JList [JStr ''375291234567'']), (''websites'', JList [])]"
  define ic where "ic = [(''A1'', \<lparr>subdomain = ''A1'', name = [], address = [], unp = [],
      phones = [''375291234567''], emails = [], websites = [''https://example.by'']\<rparr>)]"
  define ix where "ix = \<lparr>by_phone = [(''375291234567'', [''A1''])], by_email = [], by_unp = [],
      by_name_addr = []\<rparr>"
  define dec where "dec = (\<lambda>weak. decide_match [] [] [] [(''A1'', {''phone''})] weak)"
  have loaded: "load_ibiz_companies rows = ic"
    unfolding rows_def ic_def by code_simp
  have built: "build_ibiz_indexes ic = ix"
    unfolding ic_def ix_def by code_simp
  have shown: "map (\<lambda>entry. (fst entry, phones (snd entry), websites (snd entry))) ic
      = [(''A1'', [''375291234567''], [''https://example.by''])]"
    by (simp add: ic_def)
  have collected: "collect_candidates query ic ix = Inr [(''A1'', {''phone''})]"
    unfolding query_def ic_def ix_def by code_simp
  have decided: "match_type (decide_match sid nm addr [(''A1'', {''phone''})] weak) = ''auto''
      \<and> auto_candidate (decide_match sid nm addr [(''A1'', {''phone''})] weak) = Some ''A1''"
    for weak sid nm addr
    by (simp add: decide_match_def STRONG_EVIDENCE_def)
  have sid: "strip (get_str query ''source_id'') = []"
    unfolding query_def by code_simp
  have sites: "current_websites query = Inr []"
    unfolding query_def by code_simp
  have nm: "norm_space (Some (get_str query ''name'')) = []"
    "norm_space (Some (get_str query ''address'')) = []"
    unfolding query_def by code_simp+
  have pass: "decide_lines ic ix weak 0 [Some (JDict query)] [] = Inr [dec weak]" for weak
    by (simp add: sid sites nm collected dec_def)
  have approved: "auto_matches_of [dec weak] = Map.empty([] \<mapsto> ''A1'')" for weak
    by (simp add: auto_matches_of_def dec_def decide_match_def STRONG_EVIDENCE_def)
  have written: "apply_backfill (Map.empty([] \<mapsto> ''A1'')) ic [Some (JDict query)]
      = (Inr 1, [Some (JDict [(''phones'', JList [JStr ''375291234567'']),
                             (''websites'', JList [JStr ''https://example.by''])])])"
    by (simp add: apply_backfill_def backfill_row_def sid sites)
       (simp add: ic_def query_def)
  have batch: "\<exists>decisions.
           decide_lines ic ix weak 0 [Some (JDict query)] [] = Inr decisions
           \<and> map match_type decisions = [''auto'']
           \<and> map auto_candidate decisions = [Some ''A1'']
           \<and> auto_matches_of decisions (strip (get_str query ''source_id'')) = Some ''A1''
           \<and> apply_backfill (auto_matches_of decisions) ic [Some (JDict query)]
               = (Inr 1,
                  [Some (JDict [(''phones'', JList [JStr ''375291234567'']),
                                (''websites'', JList [JStr ''https://example.by''])])])" for weak
    using pass [of weak] approved [of weak] written decided [of "[]" "[]" "[]" weak]
    by (simp add: sid dec_def)
  show ?thesis
    unfolding Let_def rows_def [symmetric] query_def [symmetric] loaded built
    using shown collected decided batch by blast
qed

section \<open>The final guard of the export rewriter\<close>

lemma deep_rewrite_name:
  "deep_rewrite (JDict [(''name'', JStr ''iiibiz''), (''logo_url'', JStr [])])
     build_legacy_tokens build_legacy_tokens
   = JDict [(''name'', JStr ''iibiznesinfo''), (''logo_url'', JStr [])]"
  by code_simp

lemma rewrite_company_name:
  "rewrite_company parse [(''name'', JStr ''iiibiz'')] cfg build_legacy_tokens build_legacy_tokens
   = Inr (JDict [(''name'', JStr ''iibiznesinfo''), (''logo_url'', JStr [])])"
proof -
  have a: "get_text [(''name'', JStr ''iiibiz'')] k = Inr []" if "k \<noteq> ''name''" for k
    using that by (simp add: get_text_def dict_get_def)
  have b: "get_str [(''name'', JStr ''iiibiz'')] ''logo_url'' = []"
    by (simp add: get_str_def dict_get_def)
  have c: "strip [] = []" "lower [] = []"
    by (simp_all add: strip_def lstrip_def rstrip_def lower_def)
  have d: "[] \<notin> set build_legacy_tokens"
    by (simp add: build_legacy_tokens_def build_legacy_token_def)
  have e: "\<not> contains_any_legacy_token (Some []) build_legacy_tokens"
    by code_simp
  have f: "normalize_logo_url parse (Some []) build_legacy_tokens build_legacy_tokens = []"
    by (simp add: normalize_logo_url_def or_empty_def c)
  have g: "dict_get [(''name'', JStr ''iiibiz''), (''logo_url'', JStr [])] k = JNull"
    if "k \<noteq> ''name''" "k \<noteq> ''logo_url''" for k
    using that by (simp add: dict_get_def)
  show ?thesis
    by (simp add: rewrite_company_def a b c d e f g set_catalog_field_def deep_rewrite_name
        del: deep_rewrite.simps)
qed

text \<open>
  Claim C10. The final guard of \<open>rewrite_jsonl_file\<close> substitutes once more, and one
  substitution can leave a legacy token behind: replacing \<open>ibiz\<close> in \<open>iibiz\<close> gives
  \<open>ibiznesinfo\<close>. For the input line \<open>{"name": "iiibiz"}\<close> the rewritten company
  holds \<open>iibiznesinfo\<close>, the guard turns the serialized line into one that holds
  \<open>ibiznesinfonesinfo\<close>, and that line, which still contains \<open>ibiz\<close>, is written.
\<close>

theorem final_guard_leaves_legacy_token:
  "rewrite_jsonl_file parse cfg build_legacy_tokens build_legacy_tokens
     [Some (JDict [(''name'', JStr ''iiibiz'')])]
   = Inr [json_dumps (JDict [(''name'', JStr ''ibiznesinfonesinfo''), (''logo_url'', JStr [])])]
   \<and> contains_any_legacy_token
        (Some (json_dumps (JDict [(''name'', JStr ''ibiznesinfonesinfo''), (''logo_url'', JStr [])])))
        build_legacy_tokens
   \<and> contains
        (lower (json_dumps (JDict [(''name'', JStr ''ibiznesinfonesinfo''), (''logo_url'', JStr [])])))
        ''ibiz''"
proof -
  let ?line = "json_dumps (JDict [(''name'', JStr ''iibiznesinfo''), (''logo_url'', JStr [])])"
  let ?out = "json_dumps (JDict [(''name'', JStr ''ibiznesinfonesinfo''), (''logo_url'', JStr [])])"
  have hit: "contains_any_legacy_token (Some ?line) build_legacy_tokens"
    by code_simp
  have guard: "replace_legacy_tokens (Some ?line) build_legacy_tokens = ?out"
    by code_simp
  have still: "contains_any_legacy_token (Some ?out) build_legacy_tokens"
    by code_simp
  have ibiz: "contains (lower ?out) ''ibiz''"
    by code_simp
  have "rewrite_jsonl_file parse cfg build_legacy_tokens build_legacy_tokens
     [Some (JDict [(''name'', JStr ''iiibiz'')])] = Inr [?out]"
    unfolding rewrite_jsonl_file_def
    by (simp only: rewrite_lines.simps json.case rewrite_company_name sum.case Let_def hit guard
        if_True append_Nil)
  with still ibiz show ?thesis by blast
qed

end
